theory Spec2Isabelle
  imports Main "HOL-Library.Word"
begin

unbundle bit_operations_syntax

section \<open>Peer registry of SteamNetworkingManager\<close>

text \<open>
  \<^verbatim>\<open>src/steam/steam_networking_manager.cpp\<close>. A \<^verbatim>\<open>CSteamID\<close> wraps a 64-bit
  unsigned integer and is ordered by it.
\<close>

type_synonym CSteamID = "64 word"
type_synonym byte = "8 word"

text \<open>
  Everything the manager does to the outside world is recorded, in program order, as an
  event: taking and releasing \<^verbatim>\<open>peersMutex_\<close> (the scope of each
  \<^verbatim>\<open>std::lock_guard\<close>), the calls into \<^verbatim>\<open>ISteamNetworkingMessages\<close> and the
  notifications to the VPN bridge. Console logging is left out.
\<close>

datatype event =
    Lock
  | Unlock
  | SendMessageToUser CSteamID "byte list" "32 word" int
  | CloseSessionWithUser CSteamID
  | AcceptSessionWithUser CSteamID
  | onUserJoined CSteamID
  | onUserLeft CSteamID

text \<open>
  The members of the class that the peer operations read or write. A pointer member is
  modelled by whether it is non-null. \<open>steamUserID\<close> is what
  \<^verbatim>\<open>SteamUser()->GetSteamID()\<close> returns, \<open>sendResult\<close> is the transport's answer
  (an \<^verbatim>\<open>EResult\<close>) to a send, given the events so far. \<open>peers\<close> is the
  member \<^verbatim>\<open>peers_\<close>, a \<^verbatim>\<open>std::set<CSteamID>\<close>, kept as the ascending list of its
  elements, which is the order in which the range-for loops visit them, and
  \<open>vpnBridge\<close> is the member \<^verbatim>\<open>vpnBridge_\<close>.
\<close>

record manager =
  m_pMessagesInterface :: bool
  peers :: "CSteamID list"
  vpnBridge :: bool
  steamUserID :: CSteamID
  sendResult :: "event list \<Rightarrow> int"
  trace :: "event list"

text \<open>A call through a null \<^verbatim>\<open>m_pMessagesInterface\<close> ends the run; the state reached
  by then is kept.\<close>

datatype crash = NullPointerDereference manager

definition VPN_CHANNEL :: int where
  "VPN_CHANNEL = 0"

definition k_EResultOK :: int where
  "k_EResultOK = 1"

text \<open>Send flags of the Steamworks SDK (\<^verbatim>\<open>steamnetworkingtypes.h\<close>).\<close>

definition k_nSteamNetworkingSend_Reliable :: "32 word" where
  "k_nSteamNetworkingSend_Reliable = 8"

definition k_nSteamNetworkingSend_AutoRestartBrokenSession :: "32 word" where
  "k_nSteamNetworkingSend_AutoRestartBrokenSession = 32"

text \<open>
  Modelled from the spec: \<^verbatim>\<open>struct VpnMessageHeader\<close> and
  \<^verbatim>\<open>VpnMessageType::SESSION_HELLO\<close> are declared in \<^verbatim>\<open>net/vpn_protocol.h\<close>, which is
  missing. The spec gives the frame header as a one-byte type followed by a two-byte
  length, three bytes in all, and \<^verbatim>\<open>SESSION_HELLO = 1\<close>. \<open>header_bytes\<close> is the
  object representation that \<^verbatim>\<open>&helloMsg, sizeof(helloMsg)\<close> hands to the transport:
  the type byte, then the two bytes of the length field as the program stored it, low
  byte first as on the little-endian hosts the program runs on.
\<close>

record VpnMessageHeader =
  hdr_type :: byte
  hdr_length :: "16 word"

definition SESSION_HELLO :: byte where
  "SESSION_HELLO = 1"

definition header_bytes :: "VpnMessageHeader \<Rightarrow> byte list" where
  "header_bytes h = [hdr_type h, ucast (hdr_length h), ucast (drop_bit 8 (hdr_length h))]"

definition emit :: "event list \<Rightarrow> manager \<Rightarrow> manager" where
  "emit es s = s\<lparr>trace := trace s @ es\<rparr>"

text \<open>\<^verbatim>\<open>peers_.insert(peerID)\<close>: the new set and whether the element was new.\<close>

definition set_insert :: "CSteamID \<Rightarrow> CSteamID list \<Rightarrow> CSteamID list \<times> bool" where
  "set_insert p xs = (if p \<in> set xs then (xs, False) else (insort p xs, True))"

text \<open>\<^verbatim>\<open>peers_.erase(peerID)\<close>: the new set and the number of elements removed.\<close>

definition set_erase :: "CSteamID \<Rightarrow> CSteamID list \<Rightarrow> CSteamID list \<times> nat" where
  "set_erase p xs = (if p \<in> set xs then (removeAll p xs, 1) else (xs, 0))"

definition sendMessageToUser ::
  "CSteamID \<Rightarrow> byte list \<Rightarrow> 32 word \<Rightarrow> manager \<Rightarrow> bool \<times> manager" where
  "sendMessageToUser peerID data flags s =
     (if \<not> m_pMessagesInterface s then (False, s)
      else
        let s1 = emit [SendMessageToUser peerID data flags VPN_CHANNEL] s;
            result = sendResult s (trace s1)
        in (result = k_EResultOK, s1))"

definition broadcastMessage :: "byte list \<Rightarrow> 32 word \<Rightarrow> manager \<Rightarrow> manager" where
  "broadcastMessage data flags s =
     (if \<not> m_pMessagesInterface s then s
      else
        emit ([Lock]
              @ map (\<lambda>peerID. SendMessageToUser peerID data flags VPN_CHANNEL) (peers s)
              @ [Unlock]) s)"

definition addPeer :: "CSteamID \<Rightarrow> manager \<Rightarrow> crash + manager" where
  "addPeer peerID s =
     (if peerID = steamUserID s then Inr s
      else
        let (peers', isNewPeer) = set_insert peerID (peers s);
            s1 = emit [Lock, Unlock] (s\<lparr>peers := peers'\<rparr>)
        in
          if isNewPeer then
            let helloMsg = \<lparr>hdr_type = SESSION_HELLO, hdr_length = 0\<rparr>;
                flags = k_nSteamNetworkingSend_Reliable
                          OR k_nSteamNetworkingSend_AutoRestartBrokenSession
            in
              if \<not> m_pMessagesInterface s1 then Inl (NullPointerDereference s1)
              else
                let s2 = emit [SendMessageToUser peerID (header_bytes helloMsg) flags VPN_CHANNEL] s1
                in Inr (if vpnBridge s2 then emit [onUserJoined peerID] s2 else s2)
          else Inr s1)"

definition removePeer :: "CSteamID \<Rightarrow> manager \<Rightarrow> manager" where
  "removePeer peerID s =
     (let (peers', n) = set_erase peerID (peers s);
          s1 = emit [Lock] (s\<lparr>peers := peers'\<rparr>);
          s2 = (if n > 0 then
                  emit ((if m_pMessagesInterface s1 then [CloseSessionWithUser peerID] else [])
                        @ (if vpnBridge s1 then [onUserLeft peerID] else [])) s1
                else s1)
      in emit [Unlock] s2)"

definition clearPeers :: "manager \<Rightarrow> manager" where
  "clearPeers s =
     (let s1 = emit [Lock] s;
          s2 = emit (concat (map (\<lambda>peerID.
                   (if m_pMessagesInterface s1 then [CloseSessionWithUser peerID] else [])
                   @ (if vpnBridge s1 then [onUserLeft peerID] else [])) (peers s1))) s1
      in emit [Unlock] (s2\<lparr>peers := []\<rparr>))"

subsection \<open>Runs of control operations\<close>

datatype op =
    OpAddPeer CSteamID
  | OpRemovePeer CSteamID
  | OpClearPeers
  | OpSendMessageToUser CSteamID "byte list" "32 word"
  | OpBroadcastMessage "byte list" "32 word"

fun step :: "op \<Rightarrow> manager \<Rightarrow> crash + manager" where
  "step (OpAddPeer p) s = addPeer p s"
| "step (OpRemovePeer p) s = Inr (removePeer p s)"
| "step OpClearPeers s = Inr (clearPeers s)"
| "step (OpSendMessageToUser p d f) s = Inr (snd (sendMessageToUser p d f s))"
| "step (OpBroadcastMessage d f) s = Inr (broadcastMessage d f s)"

fun run :: "op list \<Rightarrow> manager \<Rightarrow> crash + manager" where
  "run [] s = Inr s"
| "run (x # xs) s = (case step x s of Inl c \<Rightarrow> Inl c | Inr s' \<Rightarrow> run xs s')"

text \<open>The events of a finished or crashed run.\<close>

fun events_of :: "crash + manager \<Rightarrow> event list" where
  "events_of (Inl (NullPointerDereference s)) = trace s"
| "events_of (Inr s) = trace s"

fun is_send_to :: "CSteamID \<Rightarrow> event \<Rightarrow> bool" where
  "is_send_to p (SendMessageToUser q d f c) = (q = p)"
| "is_send_to p e = False"

fun is_add :: "CSteamID \<Rightarrow> op \<Rightarrow> bool" where
  "is_add p (OpAddPeer q) = (q = p)"
| "is_add p x = False"

text \<open>The events a call appended to the trace.\<close>

definition new_events :: "manager \<Rightarrow> event list \<Rightarrow> event list" where
  "new_events s es = drop (length (trace s)) es"

text \<open>Transport calls: the I/O the manager performs.\<close>

fun is_transport_call :: "event \<Rightarrow> bool" where
  "is_transport_call (SendMessageToUser q d f c) = True"
| "is_transport_call (CloseSessionWithUser q) = True"
| "is_transport_call (AcceptSessionWithUser q) = True"
| "is_transport_call e = False"






text \<open>The frames a run sends to \<open>p\<close> through explicit \<^verbatim>\<open>sendMessageToUser\<close> calls.\<close>

fun direct_sends :: "CSteamID \<Rightarrow> op list \<Rightarrow> event list" where
  "direct_sends p [] = []"
| "direct_sends p (OpSendMessageToUser q d f # xs) =
     (if q = p then [SendMessageToUser q d f VPN_CHANNEL] else []) @ direct_sends p xs"
| "direct_sends p (x # xs) = direct_sends p xs"

fun final :: "crash + manager \<Rightarrow> manager" where
  "final (Inl (NullPointerDereference s)) = s"
| "final (Inr s) = s"

text \<open>Example states: node 101 with an empty registry, and with peer 202 joined.\<close>

definition node_101 :: manager where
  "node_101 = \<lparr>m_pMessagesInterface = True, peers = [], vpnBridge = True,
                steamUserID = 101, sendResult = (\<lambda>es. 1), trace = []\<rparr>"

definition node_101_with_202 :: manager where
  "node_101_with_202 = node_101\<lparr>peers := [202]\<rparr>"

section \<open>Adaptive polling of SteamMessageHandler\<close>

text \<open>The three constants of \<^verbatim>\<open>src/steam/steam_message_handler.h\<close>, in microseconds.\<close>

definition MIN_POLL_INTERVAL :: int where
  "MIN_POLL_INTERVAL = 100"

definition MAX_POLL_INTERVAL :: int where
  "MAX_POLL_INTERVAL = 1000"

definition POLL_INCREMENT :: int where
  "POLL_INCREMENT = 100"

text \<open>
  Modelled from the spec: \<^verbatim>\<open>SteamMessageHandler::pollMessages\<close> and the constructor are
  defined in \<^verbatim>\<open>steam_message_handler.cpp\<close>, which is missing. The spec's tick: after
  draining, if at least one message was received the interval becomes the minimum,
  otherwise it becomes \<open>min (interval + increment) max\<close>. The interval starts at the
  minimum (the spec's idle run of \<open>k\<close> ticks ends at \<open>min (min + k * increment) max\<close>).
  The argument of \<open>pollMessages\<close> is the number of messages the drain returned. A
  \<^verbatim>\<open>std::chrono::microseconds\<close> is a signed count of at least 45 bits; the model uses
  \<open>int\<close>.
\<close>

definition initialPollInterval :: int where
  "initialPollInterval = MIN_POLL_INTERVAL"

definition pollMessages :: "nat \<Rightarrow> int \<Rightarrow> int" where
  "pollMessages received currentPollInterval =
     (if received > 0 then MIN_POLL_INTERVAL
      else min (currentPollInterval + POLL_INCREMENT) MAX_POLL_INTERVAL)"

text \<open>The interval after construction and after each drain of a sequence, in order.\<close>

fun poll_intervals :: "nat list \<Rightarrow> int \<Rightarrow> int list" where
  "poll_intervals [] c = [c]"
| "poll_intervals (r # rs) c = c # poll_intervals rs (pollMessages r c)"


section \<open>TUN devices\<close>

text \<open>
  \<^verbatim>\<open>src/tun/tun_linux.cpp\<close> and \<^verbatim>\<open>src/tun/tun_macos.cpp\<close>. Both classes have the members
  \<^verbatim>\<open>fd_\<close>, \<^verbatim>\<open>deviceName_\<close>, \<^verbatim>\<open>lastError_\<close>, \<^verbatim>\<open>mtu_\<close> and \<^verbatim>\<open>nonBlocking_\<close>; the macOS
  class adds \<^verbatim>\<open>utunNumber_\<close>. The fields below are these members, written without the
  trailing underscore.
\<close>

type_synonym size_t = "64 word"

text \<open>The value of \<^verbatim>\<open>errno\<close> after a failed system call.\<close>

datatype errno = EAGAIN | EWOULDBLOCK | OtherErrno nat

text \<open>
  \<^verbatim>\<open>lastError_\<close> is a string. \<^verbatim>\<open>setError\<close> stores its argument; \<^verbatim>\<open>setErrnoError\<close>
  stores \<^verbatim>\<open>prefix + ": " + strerror(errno) + " (errno N)"\<close>, which is kept here as the
  prefix and the errno it was formatted from.
\<close>

datatype error_text = Message string | ErrnoMessage string errno

record TunDevice =
  fd :: int
  deviceName :: string
  lastError :: error_text
  mtu :: int
  nonBlocking :: bool

type_synonym TunLinux = TunDevice

record TunMacOS = TunDevice +
  utunNumber :: int

definition setError :: "string \<Rightarrow> 'a TunDevice_scheme \<Rightarrow> 'a TunDevice_scheme" where
  "setError error t = t\<lparr>lastError := Message error\<rparr>"

definition setErrnoError :: "string \<Rightarrow> errno \<Rightarrow> 'a TunDevice_scheme \<Rightarrow> 'a TunDevice_scheme" where
  "setErrnoError pfx e t = t\<lparr>lastError := ErrnoMessage pfx e\<rparr>"

text \<open>\<^verbatim>\<open>static_cast<int>\<close> of a 64-bit count: the low 32 bits, read as two's complement.\<close>

definition static_cast_int :: "int \<Rightarrow> int" where
  "static_cast_int n = sint (word_of_int n :: 32 word)"

subsection \<open>Reading\<close>

text \<open>
  What the kernel has for a \<^verbatim>\<open>::read\<close> on the device: a pending packet, or a failure
  with an errno. A TUN device and a utun socket deliver one packet per read; a read of
  \<open>count\<close> bytes returns the first \<open>count\<close> bytes of the packet, on macOS with the
  4-byte protocol family in front.
\<close>

datatype kernel_read = Packet "byte list" | ReadFails errno

text \<open>
  The result of a read: the returned \<^verbatim>\<open>int\<close>, the bytes stored at the start of the
  caller's buffer, and the object afterwards. \<open>sz\<close> is the parameter \<^verbatim>\<open>size\<close>.
\<close>

definition TunLinux_read ::
  "TunLinux \<Rightarrow> size_t \<Rightarrow> kernel_read \<Rightarrow> int \<times> byte list \<times> TunLinux" where
  "TunLinux_read t sz k =
     (if fd t < 0 then (- 1, [], t)
      else
        case k of
          ReadFails e \<Rightarrow>
            if e = EAGAIN \<or> e = EWOULDBLOCK then (0, [], t)
            else (- 1, [], setErrnoError ''read failed'' e t)
        | Packet d \<Rightarrow>
            let buffer = take (unat sz) d;
                n = int (length buffer)
            in (static_cast_int n, buffer, t))"

definition TunMacOS_read ::
  "TunMacOS \<Rightarrow> size_t \<Rightarrow> kernel_read \<Rightarrow> int \<times> byte list \<times> TunMacOS" where
  "TunMacOS_read t sz k =
     (if fd t < 0 then (- 1, [], t)
      else
        let readSize = sz + 4;
            readSize = (if readSize > 65536 then 65536 else readSize)
        in
          case k of
            ReadFails e \<Rightarrow>
              if e = EAGAIN \<or> e = EWOULDBLOCK then (0, [], t)
              else (- 1, [], setErrnoError ''read failed'' e t)
          | Packet d \<Rightarrow>
              let readBuffer = take (unat readSize) d;
                  n = length readBuffer
              in
                if n \<le> 4 then (0, [], t)
                else
                  let dataSize = n - 4;
                      dataSize = (if dataSize > unat sz then unat sz else dataSize)
                  in (static_cast_int (int dataSize), take dataSize (drop 4 readBuffer), t))"

subsection \<open>Writing on macOS\<close>

text \<open>Address families of macOS (\<^verbatim>\<open>sys/socket.h\<close>).\<close>

definition AF_INET :: "32 word" where
  "AF_INET = 2"

definition AF_INET6 :: "32 word" where
  "AF_INET6 = 30"

text \<open>The four bytes, in memory order, of the value \<^verbatim>\<open>htonl\<close> returns.\<close>

definition htonl :: "32 word \<Rightarrow> byte list" where
  "htonl x = [ucast (drop_bit 24 x), ucast (drop_bit 16 x), ucast (drop_bit 8 x), ucast x]"

text \<open>The kernel's answer to a \<^verbatim>\<open>::write\<close>: the number of bytes written, or a failure.\<close>

datatype kernel_write = Written nat | WriteFails errno

text \<open>A copy that runs past the end of \<^verbatim>\<open>writeBuffer[65536]\<close>, and a shift by the full
  width of its operand, are undefined behaviour; the model stops there.\<close>

datatype fault = StackBufferOverrun | ShiftOutOfRange

text \<open>
  The packet is the byte sequence \<open>buffer\<close>; the parameter \<^verbatim>\<open>size\<close> is its length as a
  \<^verbatim>\<open>size_t\<close>. The result is the returned \<^verbatim>\<open>int\<close>, the bytes handed to \<^verbatim>\<open>::write\<close>
  (if it was called) and the object afterwards.
\<close>

definition TunMacOS_write ::
  "TunMacOS \<Rightarrow> byte list \<Rightarrow> (byte list \<Rightarrow> kernel_write)
     \<Rightarrow> fault + (int \<times> byte list option \<times> TunMacOS)" where
  "TunMacOS_write t buffer kwrite =
     (let sz = (of_nat (length buffer) :: size_t) in
      if fd t < 0 then Inr (- 1, None, t)
      else if sz + 4 > 65536 then Inr (- 1, None, setError ''Packet too large'' t)
      else
        let af = (if sz > 0 \<and> drop_bit 4 (buffer ! 0) = 4 then htonl AF_INET
                  else if sz > 0 \<and> drop_bit 4 (buffer ! 0) = 6 then htonl AF_INET6
                  else htonl AF_INET)
        in
          if 4 + length buffer > 65536 then Inl StackBufferOverrun
          else
            let writeBuffer = af @ buffer in
              case kwrite writeBuffer of
                WriteFails e \<Rightarrow>
                  if e = EAGAIN \<or> e = EWOULDBLOCK then Inr (0, Some writeBuffer, t)
                  else Inr (- 1, Some writeBuffer, setErrnoError ''write failed'' e t)
              | Written n \<Rightarrow>
                  if n \<le> 4 then Inr (0, Some writeBuffer, t)
                  else Inr (static_cast_int (int n - 4), Some writeBuffer, t))"

subsection \<open>Configuring the address\<close>

text \<open>
  The C library and the shell, as far as \<^verbatim>\<open>set_ip\<close> uses them. \<open>inet_pton\<close> gives the
  parsed IPv4 address as a host-order number (\<^verbatim>\<open>ntohl(addr.s_addr)\<close>), or \<open>None\<close> when
  \<^verbatim>\<open>inet_pton(AF_INET, ...)\<close> does not return 1. \<open>system\<close> gives the status of a
  command, the last of the list, run after the earlier ones.
\<close>

record os =
  inet_pton :: "string \<Rightarrow> 32 word option"
  system :: "string list \<Rightarrow> int"

text \<open>\<^verbatim>\<open>runCommand\<close>: run the command, return its status; the commands run so far are
  threaded through.\<close>

definition runCommand :: "os \<Rightarrow> string \<Rightarrow> string list \<Rightarrow> int \<times> string list" where
  "runCommand env cmd hist = (system env (hist @ [cmd]), hist @ [cmd])"

text \<open>Decimal text of a number, as \<^verbatim>\<open>operator<<\<close> prints an \<^verbatim>\<open>int\<close>.\<close>

definition digit_char :: "nat \<Rightarrow> char" where
  "digit_char n = ''0123456789'' ! (n mod 10)"

fun decimal_of_nat :: "nat \<Rightarrow> string" where
  "decimal_of_nat n =
     (if 10 \<le> n then decimal_of_nat (n div 10) @ [digit_char n] else [digit_char n])"

declare decimal_of_nat.simps [simp del]

definition decimal_of_int :: "int \<Rightarrow> string" where
  "decimal_of_int i =
     (if 0 \<le> i then decimal_of_nat (nat i) else CHR ''-'' # decimal_of_nat (nat (- i)))"

text \<open>\<^verbatim>\<open>inet_ntop(AF_INET, ...)\<close> of a host-order address: dotted decimal.\<close>

definition inet_ntop :: "32 word \<Rightarrow> string" where
  "inet_ntop a =
     decimal_of_nat (unat (drop_bit 24 a)) @ ''.'' @
     decimal_of_nat (unat (drop_bit 16 a AND 255)) @ ''.'' @
     decimal_of_nat (unat (drop_bit 8 a AND 255)) @ ''.'' @
     decimal_of_nat (unat (a AND 255))"

text \<open>The loop of \<^verbatim>\<open>netmaskToPrefixLength\<close>, the same in both files.\<close>

function count_leading_ones :: "32 word \<Rightarrow> int \<Rightarrow> int" where
  "count_leading_ones msk pfx =
     (if msk AND 0x80000000 \<noteq> 0 then count_leading_ones (push_bit 1 msk) (pfx + 1)
      else pfx)"
  by pat_completeness auto

termination
proof (relation "measure (\<lambda>(msk, pfx). unat msk)")
  show "wf (measure (\<lambda>(msk :: 32 word, pfx :: int). unat msk))"
    by simp
next
  fix msk :: "32 word" and pfx :: int
  assume top: "msk AND 0x80000000 \<noteq> 0"
  have "2 ^ 31 \<le> unat msk"
  proof (rule ccontr)
    assume "\<not> 2 ^ 31 \<le> unat msk"
    then have small: "unat msk < 2 ^ 31" by simp
    have "\<not> bit msk 31"
    proof
      assume "bit msk 31"
      then have "bit (unat msk) 31" by (simp add: bit_unsigned_iff)
      then have "odd (unat msk div 2 ^ 31)" by (simp add: bit_iff_odd)
      with small show False by simp
    qed
    then have "msk AND 2 ^ 31 = 0"
      using and_exp_eq_0_iff_not_bit[of msk 31] by simp
    with top show False by simp
  qed
  then have ge: "2 ^ 32 \<le> 2 * unat msk"
    by simp
  have lt: "unat msk < 2 ^ 32"
    using unsigned_less[of msk] by simp
  have "unat (push_bit 1 msk) = (2 * unat msk) mod 2 ^ 32"
    by (simp add: unat_word_ariths push_bit_eq_mult mult.commute)
  also have "\<dots> = (2 * unat msk - 2 ^ 32) mod 2 ^ 32"
    using ge by (simp only: le_mod_geq)
  also have "\<dots> = 2 * unat msk - 2 ^ 32"
    using lt by simp
  also have "\<dots> < unat msk"
    using lt ge by simp
  finally have "unat (push_bit 1 msk) < unat msk" .
  then show "((push_bit 1 msk, pfx + 1), (msk, pfx)) \<in> measure (\<lambda>(msk, pfx). unat msk)"
    by simp
qed

declare count_leading_ones.simps [simp del]

definition netmaskToPrefixLength :: "os \<Rightarrow> string \<Rightarrow> int" where
  "netmaskToPrefixLength env netmask =
     (case inet_pton env netmask of
        None \<Rightarrow> 24
      | Some msk \<Rightarrow> count_leading_ones msk 0)"

text \<open>
  \<^verbatim>\<open>set_ip\<close>: the returned \<^verbatim>\<open>bool\<close>, the object afterwards and the commands run so
  far. The \<^verbatim>\<open>ip\<close> and \<^verbatim>\<open>ifconfig\<close> command lines are built as the string streams
  build them.
\<close>

definition TunLinux_set_ip ::
  "os \<Rightarrow> string \<Rightarrow> string \<Rightarrow> TunLinux \<Rightarrow> string list \<Rightarrow> bool \<times> TunLinux \<times> string list" where
  "TunLinux_set_ip env ip netmask t hist =
     (if fd t < 0 \<or> deviceName t = [] then (False, setError ''TUN device not open'' t, hist)
      else
        case inet_pton env ip of
          None \<Rightarrow> (False, setError (''Invalid IP address: '' @ ip) t, hist)
        | Some addr \<Rightarrow>
            let prefixLength = netmaskToPrefixLength env netmask;
                cmd = ''ip addr add '' @ ip @ ''/'' @ decimal_of_int prefixLength
                        @ '' dev '' @ deviceName t;
                (rc, hist1) = runCommand env cmd hist
            in
              if rc \<noteq> 0 then
                let delCmd = ''ip addr flush dev '' @ deviceName t;
                    (rc_del, hist2) = runCommand env delCmd hist1;
                    (rc_again, hist3) = runCommand env cmd hist2
                in
                  if rc_again \<noteq> 0 then (False, setError ''Failed to set IP address'' t, hist3)
                  else (True, t, hist3)
              else (True, t, hist1))"

definition TunMacOS_set_ip ::
  "os \<Rightarrow> string \<Rightarrow> string \<Rightarrow> TunMacOS \<Rightarrow> string list
     \<Rightarrow> fault + (bool \<times> TunMacOS \<times> string list)" where
  "TunMacOS_set_ip env ip netmask t hist =
     (if fd t < 0 \<or> deviceName t = [] then Inr (False, setError ''TUN device not open'' t, hist)
      else
        case inet_pton env ip of
          None \<Rightarrow> Inr (False, setError (''Invalid IP address: '' @ ip) t, hist)
        | Some ipAddr \<Rightarrow>
            let prefixLength = netmaskToPrefixLength env netmask in
              if 32 - prefixLength < 0 \<or> 32 \<le> 32 - prefixLength then Inl ShiftOutOfRange
              else
                let msk = (push_bit (nat (32 - prefixLength)) 0xFFFFFFFF :: 32 word);
                    network = ipAddr AND msk;
                    peerAddr = network OR 1;
                    peerAddr = (if peerAddr = ipAddr then network OR 2 else peerAddr);
                    peerStr = inet_ntop peerAddr;
                    cmd = ''ifconfig '' @ deviceName t @ '' '' @ ip @ '' '' @ peerStr
                            @ '' netmask '' @ netmask @ '' up'';
                    (rc, hist1) = runCommand env cmd hist
                in
                  if rc \<noteq> 0 then Inr (False, setError ''Failed to set IP address'' t, hist1)
                  else Inr (True, t, hist1))"

subsection \<open>Example devices and environments\<close>

definition steamvpn0 :: TunLinux where
  "steamvpn0 = \<lparr>fd = 3, deviceName = ''steamvpn0'', lastError = Message [], mtu = 1500,
                 nonBlocking = True\<rparr>"

definition utun0 :: TunMacOS where
  "utun0 = \<lparr>fd = 3, deviceName = ''utun0'', lastError = Message [], mtu = 1500,
             nonBlocking = True, utunNumber = 0\<rparr>"

text \<open>An environment that knows two address texts and where every command succeeds, and
  one where \<^verbatim>\<open>ifconfig\<close> rejects the netmask text \<^verbatim>\<open>abc\<close>.\<close>

definition parse_two :: "string \<Rightarrow> 32 word option" where
  "parse_two s =
     (if s = ''10.0.0.5'' then Some 0x0A000005
      else if s = ''255.255.255.0'' then Some 0xFFFFFF00
      else None)"

definition os_ok :: os where
  "os_ok = \<lparr>inet_pton = parse_two, system = (\<lambda>cmds. 0)\<rparr>"

definition os_strict :: os where
  "os_strict = \<lparr>inet_pton = parse_two,
                 system = (\<lambda>cmds. if last cmds = ''ifconfig utun0 10.0.0.5 10.0.0.1 netmask abc up''
                                    then 256 else 0)\<rparr>"

definition kernel_accepts_all :: "byte list \<Rightarrow> kernel_write" where
  "kernel_accepts_all frame = Written (length frame)"

section \<open>Properties of the peer registry\<close>

subsection \<open>Auxiliary facts\<close>

lemma final_trace: "events_of r = trace (final r)"
  by (cases r rule: final.cases) simp_all









lemma step_interface:
  "m_pMessagesInterface (final (step x s)) = m_pMessagesInterface s"
  by (cases x)
     (auto simp: addPeer_def removePeer_def clearPeers_def sendMessageToUser_def
        broadcastMessage_def emit_def set_insert_def set_erase_def Let_def)

lemma step_peers:
  "\<not> is_add p x \<Longrightarrow> p \<notin> set (peers s) \<Longrightarrow> p \<notin> set (peers (final (step x s)))"
  by (cases x)
     (auto simp: addPeer_def removePeer_def clearPeers_def sendMessageToUser_def
        broadcastMessage_def emit_def set_insert_def set_erase_def Let_def set_insort_key)

lemma step_sends:
  "\<not> is_add p x \<Longrightarrow> p \<notin> set (peers s) \<Longrightarrow>
     \<exists>es. trace (final (step x s)) = trace s @ es \<and>
          filter (is_send_to p) es = (if m_pMessagesInterface s then direct_sends p [x] else [])"
proof (cases x)
  case (OpAddPeer q)
  assume "\<not> is_add p x" "p \<notin> set (peers s)"
  with OpAddPeer show ?thesis
    by (auto simp: addPeer_def emit_def set_insert_def Let_def)
next
  case (OpRemovePeer q)
  then show ?thesis
    by (auto simp: removePeer_def emit_def set_erase_def Let_def)
next
  case OpClearPeers
  have "filter (is_send_to p) (concat (map (\<lambda>peerID.
          (if a then [CloseSessionWithUser peerID] else [])
           @ (if b then [onUserLeft peerID] else [])) xs)) = []" for a b xs
    by (induction xs) auto
  with OpClearPeers show ?thesis
    by (auto simp: clearPeers_def emit_def Let_def)
next
  case (OpSendMessageToUser q d f)
  then show ?thesis
    by (auto simp: sendMessageToUser_def emit_def Let_def)
next
  case (OpBroadcastMessage d f)
  assume "p \<notin> set (peers s)"
  then have "filter (is_send_to p) (map (\<lambda>peerID. SendMessageToUser peerID d f VPN_CHANNEL) (peers s)) = []"
    by (induction "peers s") (auto simp: filter_empty_conv)
  with OpBroadcastMessage show ?thesis
    by (auto simp: broadcastMessage_def emit_def Let_def)
qed

lemma direct_sends_Cons: "direct_sends p (x # xs) = direct_sends p [x] @ direct_sends p xs"
  by (cases x) auto

lemma run_sends:
  "\<forall>x\<in>set ops. \<not> is_add p x \<Longrightarrow> p \<notin> set (peers s) \<Longrightarrow>
     \<exists>es. trace (final (run ops s)) = trace s @ es \<and>
          filter (is_send_to p) es = (if m_pMessagesInterface s then direct_sends p ops else [])"
proof (induction ops arbitrary: s)
  case Nil
  then show ?case by simp
next
  case (Cons x xs)
  from Cons.prems have nx: "\<not> is_add p x" and nxs: "\<forall>x\<in>set xs. \<not> is_add p x" by auto
  from step_sends[OF nx Cons.prems(2)] obtain es1 where
    es1: "trace (final (step x s)) = trace s @ es1"
         "filter (is_send_to p) es1 = (if m_pMessagesInterface s then direct_sends p [x] else [])"
    by blast
  show ?case
  proof (cases "step x s")
    case (Inl c)
    then have crashed: "run (x # xs) s = Inl c" by simp
    from Inl have "\<not> m_pMessagesInterface s"
      by (cases x) (auto simp: addPeer_def emit_def Let_def set_insert_def split: if_splits)
    with es1 Inl crashed show ?thesis by auto
  next
    case (Inr s')
    then have r: "run (x # xs) s = run xs s'" by simp
    from Inr step_peers[OF nx Cons.prems(2)] have "p \<notin> set (peers s')" by simp
    from Cons.IH[OF nxs this] obtain es2 where
      es2: "trace (final (run xs s')) = trace s' @ es2"
           "filter (is_send_to p) es2 = (if m_pMessagesInterface s' then direct_sends p xs else [])"
      by blast
    from Inr step_interface[of x s] have i: "m_pMessagesInterface s' = m_pMessagesInterface s" by simp
    from Inr es1 have t: "trace s' = trace s @ es1" by simp
    have "trace (final (run (x # xs) s)) = trace s @ (es1 @ es2)"
      using r es2(1) t by simp
    moreover have "filter (is_send_to p) (es1 @ es2) =
        (if m_pMessagesInterface s then direct_sends p (x # xs) else [])"
      using es1(2) es2(2) i direct_sends_Cons[of p x xs] by simp
    ultimately show ?thesis by blast
  qed
qed

lemma removePeer_gone: "p \<notin> set (peers (removePeer p s))"
  by (simp add: removePeer_def set_erase_def emit_def Let_def)

lemma removePeer_interface: "m_pMessagesInterface (removePeer p s) = m_pMessagesInterface s"
  by (simp add: removePeer_def set_erase_def emit_def Let_def)

subsection \<open>Joining\<close>

text \<open>
  C1. When \<open>addPeer\<close> is called on a manager whose transport interface is present, with a
  peer id that is not yet in the registry and is not the local user's id, the call returns
  and the transport calls it made are exactly one send: the three bytes \<open>01 00 00\<close>
  (type \<open>SESSION_HELLO = 1\<close>, length 0), to that peer, with the flags reliable and
  auto-restart-broken-session, on channel 0.
\<close>

theorem addPeer_sends_hello:
  assumes "m_pMessagesInterface s"
    and "peerID \<notin> set (peers s)"
    and "peerID \<noteq> steamUserID s"
  shows "\<exists>s'. addPeer peerID s = Inr s' \<and>
           filter is_transport_call (new_events s (trace s')) =
             [SendMessageToUser peerID [1, 0, 0]
                (k_nSteamNetworkingSend_Reliable
                   OR k_nSteamNetworkingSend_AutoRestartBrokenSession) 0]"
  using assms
  by (simp add: addPeer_def set_insert_def emit_def new_events_def header_bytes_def
        SESSION_HELLO_def VPN_CHANNEL_def Let_def)

text \<open>Node 101 with an empty registry adds peer 202; the flags are \<open>8 OR 32 = 40\<close>.\<close>

theorem addPeer_sends_hello_witness:
  "m_pMessagesInterface node_101 \<and> 202 \<notin> set (peers node_101) \<and> 202 \<noteq> steamUserID node_101 \<and>
   filter is_transport_call (new_events node_101 (events_of (addPeer 202 node_101))) =
     [SendMessageToUser 202 [1, 0, 0] 40 0]"
  using addPeer_sends_hello [of node_101 202]
  by (auto simp add: node_101_def new_events_def k_nSteamNetworkingSend_Reliable_def
        k_nSteamNetworkingSend_AutoRestartBrokenSession_def)

text \<open>
  C3. If \<open>addPeer p\<close> returns, a second \<open>addPeer p\<close> right after it returns too, leaves
  every member of the manager as the first call left it (the registry in particular), and
  does nothing but take and release the mutex: no send, no \<open>onUserJoined\<close>. \<open>addPeer\<close>
  of the local user's own id returns at once and changes nothing.
\<close>

theorem addPeer_idempotent:
  "(addPeer p s = Inr s1 \<longrightarrow>
      (\<exists>s2. addPeer p s1 = Inr s2 \<and> s2\<lparr>trace := trace s1\<rparr> = s1 \<and> peers s2 = peers s1 \<and>
            filter (\<lambda>e. e \<noteq> Lock \<and> e \<noteq> Unlock) (new_events s1 (trace s2)) = []))
   \<and> addPeer (steamUserID s) s = Inr s"
proof (intro conjI impI)
  assume a: "addPeer p s = Inr s1"
  show "\<exists>s2. addPeer p s1 = Inr s2 \<and> s2\<lparr>trace := trace s1\<rparr> = s1 \<and> peers s2 = peers s1 \<and>
            filter (\<lambda>e. e \<noteq> Lock \<and> e \<noteq> Unlock) (new_events s1 (trace s2)) = []"
  proof (cases "p = steamUserID s")
    case True
    with a have "s1 = s" by (simp add: addPeer_def)
    with True show ?thesis by (simp add: addPeer_def new_events_def)
  next
    case False
    with a have self: "steamUserID s1 = steamUserID s" and mem: "p \<in> set (peers s1)"
      by (auto simp add: addPeer_def set_insert_def emit_def Let_def set_insort_key
            split: if_splits)
    with False show ?thesis
      by (simp add: addPeer_def set_insert_def emit_def new_events_def)
  qed
next
  show "addPeer (steamUserID s) s = Inr s"
    by (simp add: addPeer_def)
qed

theorem addPeer_idempotent_witness:
  "addPeer 202 node_101 =
     Inr (node_101\<lparr>peers := [202],
            trace := [Lock, Unlock, SendMessageToUser 202 [1, 0, 0] 40 0, onUserJoined 202]\<rparr>)
   \<and> (\<exists>s2. addPeer 202 (final (addPeer 202 node_101)) = Inr s2 \<and>
           peers s2 = [202] \<and>
           filter (\<lambda>e. e \<noteq> Lock \<and> e \<noteq> Unlock)
             (new_events (final (addPeer 202 node_101)) (trace s2)) = [])"
proof -
  have a: "addPeer 202 node_101 =
     Inr (node_101\<lparr>peers := [202],
            trace := [Lock, Unlock, SendMessageToUser 202 [1, 0, 0] 40 0, onUserJoined 202]\<rparr>)"
    by (simp add: addPeer_def node_101_def set_insert_def emit_def header_bytes_def
          SESSION_HELLO_def VPN_CHANNEL_def k_nSteamNetworkingSend_Reliable_def
          k_nSteamNetworkingSend_AutoRestartBrokenSession_def)
  from addPeer_idempotent[of 202 node_101 "node_101\<lparr>peers := [202],
            trace := [Lock, Unlock, SendMessageToUser 202 [1, 0, 0] 40 0, onUserJoined 202]\<rparr>"] a
  show ?thesis
    by auto
qed

subsection \<open>Leaving\<close>

text \<open>
  C5. With the transport interface and the bridge observer present, \<open>clearPeers\<close>
  requests, for each peer of the registry in turn, the close of its session and notifies
  \<open>onUserLeft\<close>, and leaves the registry empty; \<open>removePeer p\<close> removes \<open>p\<close> and closes
  its session and notifies \<open>onUserLeft\<close> exactly when \<open>p\<close> was in the registry.
\<close>

theorem clearPeers_removePeer_close_sessions:
  assumes "m_pMessagesInterface s" and "vpnBridge s"
  shows "peers (clearPeers s) = []
    \<and> new_events s (trace (clearPeers s)) =
        [Lock] @ concat (map (\<lambda>p. [CloseSessionWithUser p, onUserLeft p]) (peers s)) @ [Unlock]
    \<and> p \<notin> set (peers (removePeer p s))
    \<and> new_events s (trace (removePeer p s)) =
        (if p \<in> set (peers s) then [Lock, CloseSessionWithUser p, onUserLeft p, Unlock]
         else [Lock, Unlock])"
  using assms
  by (simp add: clearPeers_def removePeer_def set_erase_def emit_def new_events_def Let_def)

theorem clearPeers_removePeer_close_sessions_witness:
  "peers (clearPeers (node_101\<lparr>peers := [202, 303]\<rparr>)) = []
   \<and> trace (clearPeers (node_101\<lparr>peers := [202, 303]\<rparr>)) =
       [Lock, CloseSessionWithUser 202, onUserLeft 202,
        CloseSessionWithUser 303, onUserLeft 303, Unlock]
   \<and> trace (removePeer 202 (node_101\<lparr>peers := [202, 303]\<rparr>)) =
       [Lock, CloseSessionWithUser 202, onUserLeft 202, Unlock]
   \<and> peers (removePeer 202 (node_101\<lparr>peers := [202, 303]\<rparr>)) = [303]
   \<and> trace (removePeer 404 (node_101\<lparr>peers := [202, 303]\<rparr>)) = [Lock, Unlock]"
proof -
  have i: "m_pMessagesInterface (node_101\<lparr>peers := [202, 303]\<rparr>)"
      "vpnBridge (node_101\<lparr>peers := [202, 303]\<rparr>)"
      "trace (node_101\<lparr>peers := [202, 303]\<rparr>) = []"
      "peers (node_101\<lparr>peers := [202, 303]\<rparr>) = [202, 303]"
    by (simp_all add: node_101_def)
  have r: "peers (removePeer 202 (node_101\<lparr>peers := [202, 303]\<rparr>)) = [303]"
    by (simp add: removePeer_def set_erase_def emit_def node_101_def)
  from clearPeers_removePeer_close_sessions[OF i(1) i(2), of 202]
       clearPeers_removePeer_close_sessions[OF i(1) i(2), of 404] r
  show ?thesis
    by (simp add: new_events_def i)
qed

subsection \<open>Sends after a removal\<close>

text \<open>
  C2 as stated fails: \<open>sendMessageToUser\<close> does not look at the registry. After
  \<open>removePeer 202\<close>, a \<open>sendMessageToUser\<close> to 202 still hands a frame for 202 to the
  transport.
\<close>

theorem sendMessageToUser_ignores_registry_counterexample:
  "202 \<noteq> steamUserID node_101_with_202
   \<and> filter (is_send_to 202)
       (new_events (removePeer 202 node_101_with_202)
          (events_of (run [OpSendMessageToUser 202 [2, 0, 0] 0] (removePeer 202 node_101_with_202))))
     = [SendMessageToUser 202 [2, 0, 0] 0 0]"
  by (simp add: removePeer_def set_erase_def emit_def new_events_def node_101_with_202_def
        node_101_def sendMessageToUser_def VPN_CHANNEL_def)

text \<open>
  C2, amended. After \<open>removePeer p\<close>, in any run of control operations that contains no
  \<open>addPeer p\<close>, the frames sent to \<open>p\<close> are exactly those of the explicit
  \<open>sendMessageToUser\<close> calls addressed to \<open>p\<close> (none at all without a transport
  interface): \<open>broadcastMessage\<close> and the registry operations send nothing to \<open>p\<close>.
\<close>

theorem removePeer_stops_registry_sends:
  assumes "\<forall>x\<in>set ops. \<not> is_add p x"
  shows "filter (is_send_to p)
           (new_events (removePeer p s) (events_of (run ops (removePeer p s)))) =
         (if m_pMessagesInterface s then direct_sends p ops else [])"
proof -
  from run_sends[OF assms removePeer_gone, of s] obtain es where
    "trace (final (run ops (removePeer p s))) = trace (removePeer p s) @ es"
    "filter (is_send_to p) es =
       (if m_pMessagesInterface (removePeer p s) then direct_sends p ops else [])"
    by blast
  then show ?thesis
    by (simp add: new_events_def final_trace removePeer_interface)
qed

theorem removePeer_stops_registry_sends_witness:
  "events_of (run [OpBroadcastMessage [2, 0, 0] 0, OpAddPeer 303, OpBroadcastMessage [2, 0, 1] 0,
                   OpClearPeers] (removePeer 202 node_101_with_202)) =
     [Lock, CloseSessionWithUser 202, onUserLeft 202, Unlock,
      Lock, Unlock,
      Lock, Unlock, SendMessageToUser 303 [1, 0, 0] 40 0, onUserJoined 303,
      Lock, SendMessageToUser 303 [2, 0, 1] 0 0, Unlock,
      Lock, CloseSessionWithUser 303, onUserLeft 303, Unlock]
   \<and> filter (is_send_to 202)
       (new_events (removePeer 202 node_101_with_202)
          (events_of (run [OpBroadcastMessage [2, 0, 0] 0, OpAddPeer 303,
                           OpBroadcastMessage [2, 0, 1] 0, OpClearPeers]
                        (removePeer 202 node_101_with_202)))) = []"
proof -
  have e: "events_of (run [OpBroadcastMessage [2, 0, 0] 0, OpAddPeer 303,
                           OpBroadcastMessage [2, 0, 1] 0, OpClearPeers]
                        (removePeer 202 node_101_with_202)) =
     [Lock, CloseSessionWithUser 202, onUserLeft 202, Unlock,
      Lock, Unlock,
      Lock, Unlock, SendMessageToUser 303 [1, 0, 0] 40 0, onUserJoined 303,
      Lock, SendMessageToUser 303 [2, 0, 1] 0 0, Unlock,
      Lock, CloseSessionWithUser 303, onUserLeft 303, Unlock]"
    by code_simp
  have "filter (is_send_to 202)
       (new_events (removePeer 202 node_101_with_202)
          (events_of (run [OpBroadcastMessage [2, 0, 0] 0, OpAddPeer 303,
                           OpBroadcastMessage [2, 0, 1] 0, OpClearPeers]
                        (removePeer 202 node_101_with_202)))) = []"
    using removePeer_stops_registry_sends[of "[OpBroadcastMessage [2, 0, 0] 0, OpAddPeer 303,
        OpBroadcastMessage [2, 0, 1] 0, OpClearPeers]" 202 node_101_with_202]
    by simp
  with e show ?thesis by blast
qed

subsection \<open>What happens while the mutex is held\<close>





section \<open>Properties of the adaptive poller\<close>

lemma pollMessages_bounds:
  "MIN_POLL_INTERVAL \<le> c \<Longrightarrow> c \<le> MAX_POLL_INTERVAL \<Longrightarrow>
   MIN_POLL_INTERVAL \<le> pollMessages r c \<and> pollMessages r c \<le> MAX_POLL_INTERVAL"
  by (simp add: pollMessages_def MIN_POLL_INTERVAL_def MAX_POLL_INTERVAL_def POLL_INCREMENT_def)

lemma poll_intervals_bounds:
  "MIN_POLL_INTERVAL \<le> c \<Longrightarrow> c \<le> MAX_POLL_INTERVAL \<Longrightarrow>
   \<forall>i\<in>set (poll_intervals rs c). MIN_POLL_INTERVAL \<le> i \<and> i \<le> MAX_POLL_INTERVAL"
proof (induction rs arbitrary: c)
  case Nil
  then show ?case by simp
next
  case (Cons r rs)
  from pollMessages_bounds[OF Cons.prems, of r]
  have "\<forall>i\<in>set (poll_intervals rs (pollMessages r c)).
          MIN_POLL_INTERVAL \<le> i \<and> i \<le> MAX_POLL_INTERVAL"
    using Cons.IH by blast
  with Cons.prems show ?case by simp
qed

text \<open>
  C6. The bounds are min = 100, max = 1000 and increment = 100 microseconds, and for any
  sequence of drains (given by the number of messages each returned) every poll interval
  the engine ever has, from construction on, lies between min and max.
\<close>

theorem poll_interval_in_bounds:
  "MIN_POLL_INTERVAL = 100 \<and> MAX_POLL_INTERVAL = 1000 \<and> POLL_INCREMENT = 100 \<and>
   (\<forall>i\<in>set (poll_intervals drains initialPollInterval).
      MIN_POLL_INTERVAL \<le> i \<and> i \<le> MAX_POLL_INTERVAL)"
proof -
  have "MIN_POLL_INTERVAL \<le> initialPollInterval" "initialPollInterval \<le> MAX_POLL_INTERVAL"
    by (simp_all add: initialPollInterval_def MIN_POLL_INTERVAL_def MAX_POLL_INTERVAL_def)
  from poll_intervals_bounds[OF this] show ?thesis
    by (simp add: MIN_POLL_INTERVAL_def MAX_POLL_INTERVAL_def POLL_INCREMENT_def)
qed

theorem poll_interval_in_bounds_witness:
  "poll_intervals [0, 0, 3, 0] initialPollInterval = [100, 200, 300, 100, 200] \<and>
   MIN_POLL_INTERVAL \<le> poll_intervals [0, 0, 3, 0] initialPollInterval ! 2 \<and>
   poll_intervals [0, 0, 3, 0] initialPollInterval ! 2 \<le> MAX_POLL_INTERVAL"
proof -
  have e: "poll_intervals [0, 0, 3, 0] initialPollInterval = [100, 200, 300, 100, 200]"
    by (simp add: pollMessages_def initialPollInterval_def MIN_POLL_INTERVAL_def
          MAX_POLL_INTERVAL_def POLL_INCREMENT_def)
  have "poll_intervals [0, 0, 3, 0] initialPollInterval ! 2
          \<in> set (poll_intervals [0, 0, 3, 0] initialPollInterval)"
    unfolding e by simp
  with poll_interval_in_bounds[of "[0, 0, 3, 0]"] e show ?thesis
    by blast
qed

section \<open>Properties of the TUN devices\<close>

subsection \<open>Auxiliary facts\<close>

lemma static_cast_int_id: "0 \<le> n \<Longrightarrow> n < 2 ^ 31 \<Longrightarrow> static_cast_int n = n"
  by (simp add: static_cast_int_def sint_sbintrunc' signed_take_bit_int_eq_self)

lemma unat_plus_4:
  fixes sz :: size_t
  assumes "unat sz < 2 ^ 64 - 4"
  shows "unat (sz + 4) = unat sz + 4"
proof -
  have "unat sz + unat (4 :: size_t) < 2 ^ LENGTH(64)"
    using assms by simp
  then have "unat (sz + 4) = unat sz + unat (4 :: size_t)"
    by (simp only: unat_add_lem)
  then show ?thesis by simp
qed

lemma readSize_unat:
  fixes sz :: size_t
  assumes "unat sz < 2 ^ 64 - 4"
  shows "unat (if sz + 4 > 65536 then 65536 else sz + 4) = min (unat sz + 4) 65536"
proof -
  have "(sz + 4 > 65536) = (unat sz + 4 > 65536)"
    using unat_plus_4[OF assms] by (simp add: word_less_nat_alt)
  then show ?thesis
    using unat_plus_4[OF assms] by simp
qed

lemma take_min_length: "take (min (length xs) k) xs = take k xs"
  by (simp add: min_def)

lemma macos_read_short:
  assumes "0 \<le> fd m" and "length d \<le> 4"
  shows "TunMacOS_read m sz (Packet d) = (0, [], m)"
  using assms by (simp add: TunMacOS_read_def Let_def min_le_iff_disj)

lemma macos_read_packet:
  assumes "0 \<le> fd m" and "unat sz < 2 ^ 64 - 4" and "4 < length d"
  shows "TunMacOS_read m sz (Packet d) =
           (if sz = 0 then (0, [], m)
            else (int (min (min (unat sz) 65532) (length d - 4)),
                  take (min (unat sz) 65532) (drop 4 d), m))"
proof -
  define R where "R = min (unat sz + 4) 65536"
  have R: "unat (if sz + 4 > 65536 then 65536 else sz + 4) = R"
    unfolding R_def by (rule readSize_unat[OF assms(2)])
  define n where "n = min (length d) R"
  have rd: "TunMacOS_read m sz (Packet d) =
      (if n \<le> 4 then (0, [], m)
       else (static_cast_int (int (if n - 4 > unat sz then unat sz else n - 4)),
             take (if n - 4 > unat sz then unat sz else n - 4) (drop 4 (take R d)), m))"
    unfolding n_def using assms(1) by (simp add: TunMacOS_read_def R Let_def)
  show ?thesis
  proof (cases "sz = 0")
    case True
    then have "n \<le> 4" by (simp add: n_def R_def)
    with rd True show ?thesis by simp
  next
    case False
    then have pos: "0 < unat sz" by (simp add: unat_gt_0)
    then have n4: "\<not> n \<le> 4" using assms(3) by (simp add: n_def R_def)
    have le: "n - 4 \<le> unat sz" by (simp add: n_def R_def)
    have ds: "n - 4 = min (min (unat sz) 65532) (length d - 4)"
      using assms(3) by (simp add: n_def R_def)
    have small: "int (n - 4) < 2 ^ 31" by (simp add: n_def R_def)
    have "take (n - 4) (drop 4 (take R d)) = take (min (unat sz) 65532) (drop 4 d)"
    proof -
      have "drop 4 (take R d) = take (R - 4) (drop 4 d)"
        by (simp add: drop_take)
      then have "take (n - 4) (drop 4 (take R d)) = take (min (n - 4) (R - 4)) (drop 4 d)"
        by simp
      also have "min (n - 4) (R - 4) = n - 4" by (simp add: n_def)
      also have "take (n - 4) (drop 4 d) = take (min (unat sz) 65532) (drop 4 d)"
        unfolding ds using take_min_length[of "drop 4 d" "min (unat sz) 65532"]
        by (simp add: min.commute)
      finally show ?thesis .
    qed
    with rd n4 le ds small False show ?thesis
      by (simp add: Let_def static_cast_int_id)
  qed
qed

lemma of_nat_size:
  assumes "n < 2 ^ 64 - 4"
  shows "unat (of_nat n :: size_t) = n"
  using assms by (simp add: unat_of_nat)

lemma nibble_eq:
  fixes x :: byte
  shows "(drop_bit 4 x = k) = (unat x div 16 = unat k)"
proof -
  have "(drop_bit 4 x = k) = (unat (drop_bit 4 x) = unat k)"
    by (simp only: word_unat_eq_iff)
  also have "\<dots> = (drop_bit 4 (unat x) = unat k)"
    by (simp only: unat_drop_bit_eq)
  also have "\<dots> = (unat x div 16 = unat k)"
    by (simp add: drop_bit_eq_div)
  finally show ?thesis .
qed

lemma macos_write_too_large:
  assumes "0 \<le> fd t" and "length buffer < 2 ^ 64 - 4" and "65536 < length buffer + 4"
  shows "TunMacOS_write t buffer kw = Inr (- 1, None, t\<lparr>lastError := Message ''Packet too large''\<rparr>)"
proof -
  have "unat ((of_nat (length buffer) :: size_t) + 4) = length buffer + 4"
    using unat_plus_4[of "of_nat (length buffer)"] of_nat_size[OF assms(2)] assms(2) by simp
  then have "(of_nat (length buffer) :: size_t) + 4 > 65536"
    using assms(3) by (simp add: word_less_nat_alt)
  with assms(1) show ?thesis
    by (simp add: TunMacOS_write_def setError_def Let_def)
qed

lemma macos_write_no_overrun:
  assumes "length buffer < 2 ^ 64 - 4"
  shows "TunMacOS_write t buffer kw \<noteq> Inl StackBufferOverrun"
proof (cases "65536 < length buffer + 4")
  case True
  show ?thesis
  proof (cases "0 \<le> fd t")
    case True
    from macos_write_too_large[OF True assms \<open>65536 < length buffer + 4\<close>] show ?thesis by simp
  next
    case False
    then show ?thesis by (simp add: TunMacOS_write_def Let_def)
  qed
next
  case False
  then show ?thesis
    by (auto simp add: TunMacOS_write_def Let_def split: kernel_write.splits)
qed

lemma macos_write_frame:
  assumes "0 \<le> fd t" and "length buffer + 4 \<le> 65536"
  shows "\<exists>r t'. TunMacOS_write t buffer kw =
           Inr (r, Some (htonl (if buffer \<noteq> [] \<and> unat (buffer ! 0) div 16 = 4 then AF_INET
                                else if buffer \<noteq> [] \<and> unat (buffer ! 0) div 16 = 6 then AF_INET6
                                else AF_INET) @ buffer), t')"
proof -
  have lt: "length buffer < 2 ^ 64 - 4" using assms(2) by simp
  have u: "unat (of_nat (length buffer) :: size_t) = length buffer"
    by (rule of_nat_size[OF lt])
  have "unat ((of_nat (length buffer) :: size_t) + 4) = length buffer + 4"
    using unat_plus_4[of "of_nat (length buffer)"] u lt by simp
  then have g: "\<not> (of_nat (length buffer) :: size_t) + 4 > 65536"
    using assms(2) by (simp add: word_less_nat_alt)
  have p: "((of_nat (length buffer) :: size_t) > 0) = (buffer \<noteq> [])"
    using u by (simp add: word_less_nat_alt)
  show ?thesis
    using assms g
    by (simp add: TunMacOS_write_def Let_def p nibble_eq split: kernel_write.splits)
qed

lemma htonl_families: "htonl AF_INET = [0, 0, 0, 2] \<and> htonl AF_INET6 = [0, 0, 0, 30]"
  by (simp add: htonl_def AF_INET_def AF_INET6_def)

lemma decimal_of_int_24: "decimal_of_int 24 = ''24''"
  by code_simp

lemma prefix_default:
  "inet_pton env netmask = None \<Longrightarrow> netmaskToPrefixLength env netmask = 24"
  by (simp add: netmaskToPrefixLength_def)

lemma mask_24: "(1099511627520 :: 32 word) = 0xFFFFFF00"
  by simp

lemma peer_text: "inet_ntop 0x0A000001 = ''10.0.0.1''"
  by code_simp

subsection \<open>Reading\<close>

text \<open>
  C7. On both variants a read on a device that is not open returns -1; on an open device a
  failed \<^verbatim>\<open>::read\<close> with \<^verbatim>\<open>EAGAIN\<close> or \<^verbatim>\<open>EWOULDBLOCK\<close> returns 0 and changes nothing,
  and one with any other errno returns -1 and records the error. A packet that fits the
  caller's buffer is returned whole with its positive length: on Linux the packet as the
  kernel delivered it, on macOS the packet without its 4-byte protocol-family prefix.
\<close>

theorem tun_read_results:
  "(fd t < 0 \<longrightarrow> fst (TunLinux_read t sz k) = - 1)
   \<and> (0 \<le> fd t \<and> (e = EAGAIN \<or> e = EWOULDBLOCK) \<longrightarrow>
        TunLinux_read t sz (ReadFails e) = (0, [], t))
   \<and> (0 \<le> fd t \<and> e \<noteq> EAGAIN \<and> e \<noteq> EWOULDBLOCK \<longrightarrow>
        TunLinux_read t sz (ReadFails e) =
          (- 1, [], t\<lparr>lastError := ErrnoMessage ''read failed'' e\<rparr>))
   \<and> (0 \<le> fd t \<and> d \<noteq> [] \<and> length d \<le> unat sz \<and> length d < 2 ^ 31 \<longrightarrow>
        TunLinux_read t sz (Packet d) = (int (length d), d, t) \<and> 0 < int (length d))
   \<and> (fd m < 0 \<longrightarrow> fst (TunMacOS_read m sz k) = - 1)
   \<and> (0 \<le> fd m \<and> (e = EAGAIN \<or> e = EWOULDBLOCK) \<longrightarrow>
        TunMacOS_read m sz (ReadFails e) = (0, [], m))
   \<and> (0 \<le> fd m \<and> e \<noteq> EAGAIN \<and> e \<noteq> EWOULDBLOCK \<longrightarrow>
        TunMacOS_read m sz (ReadFails e) =
          (- 1, [], m\<lparr>lastError := ErrnoMessage ''read failed'' e\<rparr>))
   \<and> (0 \<le> fd m \<and> 4 < length p \<and> length p - 4 \<le> unat sz \<and> length p \<le> 65536
        \<and> unat sz < 2 ^ 64 - 4 \<longrightarrow>
        TunMacOS_read m sz (Packet p) = (int (length p - 4), drop 4 p, m)
        \<and> 0 < int (length p - 4))"
proof -
  have l1: "fd t < 0 \<longrightarrow> fst (TunLinux_read t sz k) = - 1"
    by (simp add: TunLinux_read_def)
  have l2: "0 \<le> fd t \<and> (e = EAGAIN \<or> e = EWOULDBLOCK) \<longrightarrow>
        TunLinux_read t sz (ReadFails e) = (0, [], t)"
    by (auto simp add: TunLinux_read_def)
  have l3: "0 \<le> fd t \<and> e \<noteq> EAGAIN \<and> e \<noteq> EWOULDBLOCK \<longrightarrow>
        TunLinux_read t sz (ReadFails e) =
          (- 1, [], t\<lparr>lastError := ErrnoMessage ''read failed'' e\<rparr>)"
    by (simp add: TunLinux_read_def setErrnoError_def)
  have l4: "0 \<le> fd t \<and> d \<noteq> [] \<and> length d \<le> unat sz \<and> length d < 2 ^ 31 \<longrightarrow>
        TunLinux_read t sz (Packet d) = (int (length d), d, t) \<and> 0 < int (length d)"
    by (simp add: TunLinux_read_def Let_def static_cast_int_id)
  have m1: "fd m < 0 \<longrightarrow> fst (TunMacOS_read m sz k) = - 1"
    by (simp add: TunMacOS_read_def)
  have m2: "0 \<le> fd m \<and> (e = EAGAIN \<or> e = EWOULDBLOCK) \<longrightarrow>
        TunMacOS_read m sz (ReadFails e) = (0, [], m)"
    by (auto simp add: TunMacOS_read_def Let_def)
  have m3: "0 \<le> fd m \<and> e \<noteq> EAGAIN \<and> e \<noteq> EWOULDBLOCK \<longrightarrow>
        TunMacOS_read m sz (ReadFails e) =
          (- 1, [], m\<lparr>lastError := ErrnoMessage ''read failed'' e\<rparr>)"
    by (simp add: TunMacOS_read_def setErrnoError_def Let_def)
  have m4: "0 \<le> fd m \<and> 4 < length p \<and> length p - 4 \<le> unat sz \<and> length p \<le> 65536
        \<and> unat sz < 2 ^ 64 - 4 \<longrightarrow>
        TunMacOS_read m sz (Packet p) = (int (length p - 4), drop 4 p, m)
        \<and> 0 < int (length p - 4)"
  proof (intro impI, elim conjE)
    assume a: "0 \<le> fd m" "4 < length p" "length p - 4 \<le> unat sz" "length p \<le> 65536"
      "unat sz < 2 ^ 64 - 4"
    then have "0 < unat sz" by linarith
    then have nz: "sz \<noteq> 0" by (simp add: unat_gt_0)
    have "min (min (unat sz) 65532) (length p - 4) = length p - 4"
      using a by simp
    moreover have "take (min (unat sz) 65532) (drop 4 p) = drop 4 p"
      using a by simp
    ultimately show "TunMacOS_read m sz (Packet p) = (int (length p - 4), drop 4 p, m)
        \<and> 0 < int (length p - 4)"
      using macos_read_packet[OF a(1) a(5) a(2)] nz a(2) by simp
  qed
  from l1 l2 l3 l4 m1 m2 m3 m4 show ?thesis by blast
qed

theorem tun_read_results_witness:
  "fst (TunLinux_read (steamvpn0\<lparr>fd := - 1\<rparr>) 1500 (Packet [0x45, 0, 0, 20])) = - 1
   \<and> TunLinux_read steamvpn0 1500 (ReadFails EAGAIN) = (0, [], steamvpn0)
   \<and> TunLinux_read steamvpn0 1500 (ReadFails (OtherErrno 5)) =
        (- 1, [], steamvpn0\<lparr>lastError := ErrnoMessage ''read failed'' (OtherErrno 5)\<rparr>)
   \<and> TunLinux_read steamvpn0 1500 (Packet [0x45, 0, 0, 20]) = (4, [0x45, 0, 0, 20], steamvpn0)
   \<and> fst (TunMacOS_read (utun0\<lparr>fd := - 1\<rparr>) 1500 (Packet [0, 0, 0, 2, 0x45, 0, 0, 20])) = - 1
   \<and> TunMacOS_read utun0 1500 (ReadFails EWOULDBLOCK) = (0, [], utun0)
   \<and> TunMacOS_read utun0 1500 (ReadFails (OtherErrno 5)) =
        (- 1, [], utun0\<lparr>lastError := ErrnoMessage ''read failed'' (OtherErrno 5)\<rparr>)
   \<and> TunMacOS_read utun0 1500 (Packet [0, 0, 0, 2, 0x45, 0, 0, 20]) = (4, [0x45, 0, 0, 20], utun0)"
proof -
  note a = tun_read_results[of "steamvpn0\<lparr>fd := - 1\<rparr>" 1500 "Packet [0x45, 0, 0, 20]"
      EAGAIN "[]" "utun0\<lparr>fd := - 1\<rparr>" "[]"]
  note b = tun_read_results[of steamvpn0 1500 "Packet []" EAGAIN "[0x45, 0, 0, 20]" utun0
      "[0, 0, 0, 2, 0x45, 0, 0, 20]"]
  note c = tun_read_results[of steamvpn0 1500 "Packet []" "OtherErrno 5" "[]" utun0 "[]"]
  note d = tun_read_results[of steamvpn0 1500 "Packet []" EWOULDBLOCK "[]" utun0 "[]"]
  have f: "fd steamvpn0 = 3" "fd utun0 = 3" by (simp_all add: steamvpn0_def utun0_def)
  have e1: "fst (TunLinux_read (steamvpn0\<lparr>fd := - 1\<rparr>) 1500 (Packet [0x45, 0, 0, 20])) = - 1"
    using a by simp
  have e2: "TunLinux_read steamvpn0 1500 (ReadFails EAGAIN) = (0, [], steamvpn0)"
    using b f by simp
  have e3: "TunLinux_read steamvpn0 1500 (ReadFails (OtherErrno 5)) =
        (- 1, [], steamvpn0\<lparr>lastError := ErrnoMessage ''read failed'' (OtherErrno 5)\<rparr>)"
    using c f by simp
  have e4: "TunLinux_read steamvpn0 1500 (Packet [0x45, 0, 0, 20]) = (4, [0x45, 0, 0, 20], steamvpn0)"
    using b f by simp
  have e5: "fst (TunMacOS_read (utun0\<lparr>fd := - 1\<rparr>) 1500 (Packet [0, 0, 0, 2, 0x45, 0, 0, 20])) = - 1"
    using tun_read_results[of steamvpn0 1500 "Packet [0, 0, 0, 2, 0x45, 0, 0, 20]"
      EAGAIN "[]" "utun0\<lparr>fd := - 1\<rparr>" "[]"] by simp
  have e6: "TunMacOS_read utun0 1500 (ReadFails EWOULDBLOCK) = (0, [], utun0)"
    using d f by simp
  have e7: "TunMacOS_read utun0 1500 (ReadFails (OtherErrno 5)) =
        (- 1, [], utun0\<lparr>lastError := ErrnoMessage ''read failed'' (OtherErrno 5)\<rparr>)"
    using c f by simp
  have e8: "TunMacOS_read utun0 1500 (Packet [0, 0, 0, 2, 0x45, 0, 0, 20]) = (4, [0x45, 0, 0, 20], utun0)"
    using b f by simp
  from e1 e2 e3 e4 e5 e6 e7 e8 show ?thesis by blast
qed

text \<open>
  C8 as stated fails in its second half: reads go through a 65536-byte buffer that also
  holds the 4-byte prefix, so at most 65532 payload bytes come back. With a caller's buffer
  of 65534 bytes and a payload of 65535 bytes the result is 65532 bytes, not 65534.
\<close>

theorem TunMacOS_read_truncates_counterexample:
  "unat (65534 :: size_t) < length (drop 4 (replicate 65539 (0 :: byte)))
   \<and> TunMacOS_read utun0 65534 (Packet (replicate 65539 0)) = (65532, replicate 65532 0, utun0)"
proof -
  have "0 \<le> fd utun0" by (simp add: utun0_def)
  from macos_read_packet[OF this, of 65534 "replicate 65539 0"] show ?thesis
    by simp
qed

text \<open>
  C8, amended. On an open macOS device a raw datagram of 4 bytes or fewer yields 0 and no
  error. When the payload (the datagram without its prefix) is longer than the caller's
  buffer, the read does not fail: it returns the first bytes of the payload, as many as the
  buffer holds, and at most 65532.
\<close>

theorem TunMacOS_read_short_and_truncated:
  "(0 \<le> fd m \<and> length d \<le> 4 \<longrightarrow> TunMacOS_read m sz (Packet d) = (0, [], m))
   \<and> (0 \<le> fd m \<and> unat sz < 2 ^ 64 - 4 \<and> 4 < length d \<and> unat sz < length d - 4 \<longrightarrow>
        TunMacOS_read m sz (Packet d) =
          (int (min (unat sz) 65532), take (min (unat sz) 65532) (drop 4 d), m))"
proof (intro conjI impI; elim conjE)
  assume "0 \<le> fd m" "length d \<le> 4"
  then show "TunMacOS_read m sz (Packet d) = (0, [], m)"
    by (rule macos_read_short)
next
  assume a: "0 \<le> fd m" "unat sz < 2 ^ 64 - 4" "4 < length d" "unat sz < length d - 4"
  then have "min (min (unat sz) 65532) (length d - 4) = min (unat sz) 65532"
    by simp
  with macos_read_packet[OF a(1) a(2) a(3)] show "TunMacOS_read m sz (Packet d) =
          (int (min (unat sz) 65532), take (min (unat sz) 65532) (drop 4 d), m)"
    by (cases "sz = 0") simp_all
qed

theorem TunMacOS_read_short_and_truncated_witness:
  "TunMacOS_read utun0 2 (Packet [0, 0, 0]) = (0, [], utun0)
   \<and> TunMacOS_read utun0 2 (Packet [0, 0, 0, 2, 0x45, 0, 0, 20]) = (2, [0x45, 0], utun0)"
proof -
  have f: "fd utun0 = 3" by (simp add: utun0_def)
  have "TunMacOS_read utun0 2 (Packet [0, 0, 0]) = (0, [], utun0)"
    using TunMacOS_read_short_and_truncated[of utun0 "[0, 0, 0]" 2] f by simp
  moreover have "TunMacOS_read utun0 2 (Packet [0, 0, 0, 2, 0x45, 0, 0, 20]) = (2, [0x45, 0], utun0)"
    using TunMacOS_read_short_and_truncated[of utun0 "[0, 0, 0, 2, 0x45, 0, 0, 20]" 2] f by simp
  ultimately show ?thesis by blast
qed

subsection \<open>Writing on macOS\<close>

text \<open>
  C9. On an open macOS device a packet whose length plus 4 exceeds 65536 is rejected: the
  write returns -1, hands nothing to the kernel and records \<^verbatim>\<open>Packet too large\<close>. The
  copy into the 65536-byte stack buffer never runs past its end. An accepted packet goes
  to the kernel behind a 4-byte family header chosen from its first byte's high nibble: 4
  gives \<^verbatim>\<open>AF_INET\<close>, 6 gives \<^verbatim>\<open>AF_INET6\<close>, anything else, and an empty packet,
  \<^verbatim>\<open>AF_INET\<close>. (The packet is an object in memory, so its length is below
  \<open>2^64 - 4\<close>.)
\<close>

theorem TunMacOS_write_size_guard:
  "(0 \<le> fd t \<and> length buffer < 2 ^ 64 - 4 \<and> 65536 < length buffer + 4 \<longrightarrow>
      TunMacOS_write t buffer kw =
        Inr (- 1, None, t\<lparr>lastError := Message ''Packet too large''\<rparr>))
   \<and> (length buffer < 2 ^ 64 - 4 \<longrightarrow> TunMacOS_write t buffer kw \<noteq> Inl StackBufferOverrun)
   \<and> (0 \<le> fd t \<and> length buffer + 4 \<le> 65536 \<longrightarrow>
        (\<exists>r t'. TunMacOS_write t buffer kw =
           Inr (r, Some (htonl (if buffer \<noteq> [] \<and> unat (buffer ! 0) div 16 = 4 then AF_INET
                                else if buffer \<noteq> [] \<and> unat (buffer ! 0) div 16 = 6 then AF_INET6
                                else AF_INET) @ buffer), t')))
   \<and> htonl AF_INET = [0, 0, 0, 2] \<and> htonl AF_INET6 = [0, 0, 0, 30]"
  using macos_write_too_large[of t buffer kw] macos_write_no_overrun[of buffer t kw]
    macos_write_frame[of t buffer kw] htonl_families
  by blast

theorem TunMacOS_write_size_guard_witness:
  "TunMacOS_write utun0 (replicate 65533 0x45) kernel_accepts_all =
      Inr (- 1, None, utun0\<lparr>lastError := Message ''Packet too large''\<rparr>)
   \<and> TunMacOS_write utun0 (replicate 65532 0x45) kernel_accepts_all \<noteq> Inl StackBufferOverrun
   \<and> (\<exists>r t'. TunMacOS_write utun0 [0x60, 0, 0, 0] kernel_accepts_all =
          Inr (r, Some [0, 0, 0, 30, 0x60, 0, 0, 0], t'))
   \<and> (\<exists>r t'. TunMacOS_write utun0 [0x45, 0, 0, 20] kernel_accepts_all =
          Inr (r, Some [0, 0, 0, 2, 0x45, 0, 0, 20], t'))
   \<and> (\<exists>r t'. TunMacOS_write utun0 [0x15, 0, 0, 20] kernel_accepts_all =
          Inr (r, Some [0, 0, 0, 2, 0x15, 0, 0, 20], t'))"
proof -
  have f: "fd utun0 = 3" by (simp add: utun0_def)
  have w1: "TunMacOS_write utun0 (replicate 65533 0x45) kernel_accepts_all =
      Inr (- 1, None, utun0\<lparr>lastError := Message ''Packet too large''\<rparr>)"
    using TunMacOS_write_size_guard[of utun0 "replicate 65533 0x45" kernel_accepts_all] f
    by simp
  have w2: "TunMacOS_write utun0 (replicate 65532 0x45) kernel_accepts_all \<noteq> Inl StackBufferOverrun"
    using TunMacOS_write_size_guard[of utun0 "replicate 65532 0x45" kernel_accepts_all]
    by simp
  have w3: "\<exists>r t'. TunMacOS_write utun0 [0x60, 0, 0, 0] kernel_accepts_all =
          Inr (r, Some [0, 0, 0, 30, 0x60, 0, 0, 0], t')"
    using TunMacOS_write_size_guard[of utun0 "[0x60, 0, 0, 0]" kernel_accepts_all] f
    by auto
  have w4: "\<exists>r t'. TunMacOS_write utun0 [0x45, 0, 0, 20] kernel_accepts_all =
          Inr (r, Some [0, 0, 0, 2, 0x45, 0, 0, 20], t')"
    using TunMacOS_write_size_guard[of utun0 "[0x45, 0, 0, 20]" kernel_accepts_all] f
    by auto
  have w5: "\<exists>r t'. TunMacOS_write utun0 [0x15, 0, 0, 20] kernel_accepts_all =
          Inr (r, Some [0, 0, 0, 2, 0x15, 0, 0, 20], t')"
    using TunMacOS_write_size_guard[of utun0 "[0x15, 0, 0, 20]" kernel_accepts_all] f
    by auto
  from w1 w2 w3 w4 w5 show ?thesis by blast
qed

subsection \<open>Configuring the address\<close>

text \<open>
  C10 as stated fails on macOS: the \<^verbatim>\<open>ifconfig\<close> command is given the netmask text as
  passed in, not a /24, and when \<^verbatim>\<open>ifconfig\<close> rejects that text \<open>set_ip\<close> returns
  false, where the same call with the netmask \<^verbatim>\<open>255.255.255.0\<close> returns true.
\<close>

theorem set_ip_unparsable_netmask_counterexample:
  "inet_pton os_strict ''abc'' = None
   \<and> TunMacOS_set_ip os_strict ''10.0.0.5'' ''abc'' utun0 [] =
       Inr (False, utun0\<lparr>lastError := Message ''Failed to set IP address''\<rparr>,
            [''ifconfig utun0 10.0.0.5 10.0.0.1 netmask abc up''])
   \<and> TunMacOS_set_ip os_strict ''10.0.0.5'' ''255.255.255.0'' utun0 [] =
       Inr (True, utun0, [''ifconfig utun0 10.0.0.5 10.0.0.1 netmask 255.255.255.0 up''])"
  by code_simp

text \<open>
  C10, amended. For a netmask text that does not parse, \<open>netmaskToPrefixLength\<close> gives 24
  and \<open>set_ip\<close>, on an open device and with a valid address, does not return false on
  that account: it runs its configuration command and returns whether the command
  succeeded. On Linux the command is \<^verbatim>\<open>ip addr add <ip>/24 dev <name>\<close> (run again after
  a flush if it fails). On macOS the 24 only selects the point-to-point peer address; the
  command is \<^verbatim>\<open>ifconfig <name> <ip> <peer> netmask <netmask> up\<close> with the netmask text
  as passed in.
\<close>

theorem set_ip_unparsable_netmask:
  assumes "inet_pton env netmask = None"
  shows "netmaskToPrefixLength env netmask = 24
   \<and> (0 \<le> fd t \<and> deviceName t \<noteq> [] \<and> inet_pton env ip \<noteq> None \<longrightarrow>
        TunLinux_set_ip env ip netmask t hist =
          (let cmd = ''ip addr add '' @ ip @ ''/24 dev '' @ deviceName t;
               flush = ''ip addr flush dev '' @ deviceName t
           in if system env (hist @ [cmd]) = 0 then (True, t, hist @ [cmd])
              else if system env (hist @ [cmd, flush, cmd]) = 0
                then (True, t, hist @ [cmd, flush, cmd])
              else (False, t\<lparr>lastError := Message ''Failed to set IP address''\<rparr>,
                    hist @ [cmd, flush, cmd])))
   \<and> (0 \<le> fd m \<and> deviceName m \<noteq> [] \<and> inet_pton env ip = Some a \<longrightarrow>
        TunMacOS_set_ip env ip netmask m hist =
          (let network = a AND 0xFFFFFF00;
               peer = (if network OR 1 = a then network OR 2 else network OR 1);
               cmd = ''ifconfig '' @ deviceName m @ '' '' @ ip @ '' '' @ inet_ntop peer
                       @ '' netmask '' @ netmask @ '' up''
           in if system env (hist @ [cmd]) = 0 then Inr (True, m, hist @ [cmd])
              else Inr (False, m\<lparr>lastError := Message ''Failed to set IP address''\<rparr>,
                        hist @ [cmd])))"
proof (intro conjI impI)
  show "netmaskToPrefixLength env netmask = 24"
    by (rule prefix_default[OF assms])
next
  assume "0 \<le> fd t \<and> deviceName t \<noteq> [] \<and> inet_pton env ip \<noteq> None"
  then show "TunLinux_set_ip env ip netmask t hist =
          (let cmd = ''ip addr add '' @ ip @ ''/24 dev '' @ deviceName t;
               flush = ''ip addr flush dev '' @ deviceName t
           in if system env (hist @ [cmd]) = 0 then (True, t, hist @ [cmd])
              else if system env (hist @ [cmd, flush, cmd]) = 0
                then (True, t, hist @ [cmd, flush, cmd])
              else (False, t\<lparr>lastError := Message ''Failed to set IP address''\<rparr>,
                    hist @ [cmd, flush, cmd]))"
    by (auto simp add: TunLinux_set_ip_def prefix_default[OF assms] decimal_of_int_24
          runCommand_def setError_def Let_def)
next
  assume "0 \<le> fd m \<and> deviceName m \<noteq> [] \<and> inet_pton env ip = Some a"
  then show "TunMacOS_set_ip env ip netmask m hist =
          (let network = a AND 0xFFFFFF00;
               peer = (if network OR 1 = a then network OR 2 else network OR 1);
               cmd = ''ifconfig '' @ deviceName m @ '' '' @ ip @ '' '' @ inet_ntop peer
                       @ '' netmask '' @ netmask @ '' up''
           in if system env (hist @ [cmd]) = 0 then Inr (True, m, hist @ [cmd])
              else Inr (False, m\<lparr>lastError := Message ''Failed to set IP address''\<rparr>,
                        hist @ [cmd]))"
    by (simp add: TunMacOS_set_ip_def prefix_default[OF assms]
          runCommand_def setError_def Let_def mask_24)
qed

theorem set_ip_unparsable_netmask_witness:
  "inet_pton os_ok ''abc'' = None
   \<and> netmaskToPrefixLength os_ok ''abc'' = 24
   \<and> TunLinux_set_ip os_ok ''10.0.0.5'' ''abc'' steamvpn0 [] =
       (True, steamvpn0, [''ip addr add 10.0.0.5/24 dev steamvpn0''])
   \<and> TunMacOS_set_ip os_ok ''10.0.0.5'' ''abc'' utun0 [] =
       Inr (True, utun0, [''ifconfig utun0 10.0.0.5 10.0.0.1 netmask abc up''])"
proof -
  have n: "inet_pton os_ok ''abc'' = None"
    by (simp add: os_ok_def parse_two_def)
  have p: "inet_pton os_ok ''10.0.0.5'' = Some 0x0A000005"
    by (simp add: os_ok_def parse_two_def)
  have s: "system os_ok = (\<lambda>cmds. 0)"
    by (simp add: os_ok_def)
  have f: "fd steamvpn0 = 3" "deviceName steamvpn0 = ''steamvpn0''"
    "fd utun0 = 3" "deviceName utun0 = ''utun0''"
    by (simp_all add: steamvpn0_def utun0_def)
  have a: "(0x0A000005 :: 32 word) AND 0xFFFFFF00 = 0x0A000000" by simp
  from set_ip_unparsable_netmask[OF n, of steamvpn0 "''10.0.0.5''" "[]" utun0 "0x0A000005"]
  show ?thesis
    using n p s f by (simp add: a peer_text)
qed

end
